theory Spec2Isabelle
  imports Complex_Main "HOL-Library.AList" "HOL-Library.Multiset" "HOL-Library.Product_Lexorder"
begin

section \<open>Python values used by the two report scripts\<close>

text \<open>
  A Python \<^verbatim>\<open>dict\<close> keeps its keys in insertion order, so it is an association list
  with distinct keys: \<open>map_of\<close> is \<^verbatim>\<open>d.get(k)\<close>, \<open>AList.update\<close> is \<^verbatim>\<open>d[k] = v\<close>
  (an existing key keeps its place, a new key goes to the end).

  The measurements are Python floats. The extractor and the aligner only compare and
  subtract them, so they are polymorphic in the type \<open>'v\<close> of measurements, with its
  \<open><\<close> and its \<open>-\<close>: they are used at the type \<open>f64\<close> of binary64 numbers below, with
  NaN and the infinities, and at the type \<open>real\<close>. The two mains compute their
  statistics over \<open>real\<close>, that is over finite floats with exact arithmetic.
  \<^verbatim>\<open>float(s)\<close> and \<^verbatim>\<open>re.match\<close> are builtins: they are fields of the record that
  describes the world a script runs in.
\<close>

type_synonym ('k, 'v) dict = "('k \<times> 'v) list"

text \<open>\<^verbatim>\<open>delays[k].append(v)\<close> on a \<^verbatim>\<open>defaultdict(list)\<close>.\<close>

definition dict_append :: "'k \<Rightarrow> 'a \<Rightarrow> ('k, 'a list) dict \<Rightarrow> ('k, 'a list) dict" where
  "dict_append k v d =
     AList.update k ((case map_of d k of None \<Rightarrow> [] | Some xs \<Rightarrow> xs) @ [v]) d"

text \<open>\<^verbatim>\<open>str(n)\<close> of a Python int; \<open>str_nat\<close> writes the digits of \<open>n \<ge> 0\<close>.\<close>

definition digit_char :: "int \<Rightarrow> char" where
  "digit_char d = char_of (48 + d)"

function str_nat :: "int \<Rightarrow> string" where
  "str_nat n = (if n < 10 then [digit_char n] else str_nat (n div 10) @ [digit_char (n mod 10)])"
  by pat_completeness auto
termination
  by (relation "measure (\<lambda>n. nat n)") auto

declare str_nat.simps [simp del]

definition str_int :: "int \<Rightarrow> string" where
  "str_int i = (if i < 0 then CHR ''-'' # str_nat (- i) else str_nat i)"

text \<open>\<^verbatim>\<open>range(start, stop, step)\<close> for a positive step.\<close>

function py_range :: "int \<Rightarrow> int \<Rightarrow> int \<Rightarrow> int list" where
  "py_range start stop step =
     (if 0 < step \<and> start < stop then start # py_range (start + step) stop step else [])"
  by pat_completeness auto
termination
  by (relation "measure (\<lambda>(start, stop, step). nat (stop - start))") auto

declare py_range.simps [simp del]

subsection \<open>\<^verbatim>\<open>list.sort()\<close>\<close>

text \<open>
  \<^verbatim>\<open>list.sort()\<close> is CPython's listsort, which compares with \<open><\<close> only. On a list
  shorter than 64 it works as follows (\<^verbatim>\<open>count_run\<close> and \<^verbatim>\<open>binarysort\<close> of
  listobject.c, CPython 3.12 and before): the longest run at the start of the list is
  found, non-descending (no element \<open><\<close> its predecessor) or strictly descending (every
  element \<open><\<close> its predecessor) and then reversed; each later element is inserted into
  the sorted part at the place a binary search gives. A list that is one non-descending
  run is left as it is. Longer lists are cut into such runs which are merged: whenever
  \<open><\<close> is a total order on the values, the result is the same sorted list.
\<close>

fun count_asc :: "('v::ord) \<Rightarrow> 'v list \<Rightarrow> nat" where
  "count_asc prev [] = 0"
| "count_asc prev (x # xs) = (if x < prev then 0 else Suc (count_asc x xs))"

fun count_desc :: "('v::ord) \<Rightarrow> 'v list \<Rightarrow> nat" where
  "count_desc prev [] = 0"
| "count_desc prev (x # xs) = (if x < prev then Suc (count_desc x xs) else 0)"

text \<open>The binary search of \<^verbatim>\<open>binarysort\<close> for the place of \<open>pivot\<close> in \<open>xs[l:r]\<close>.\<close>

function bisect :: "('v::ord) \<Rightarrow> 'v list \<Rightarrow> nat \<Rightarrow> nat \<Rightarrow> nat" where
  "bisect pivot xs l r =
     (if l < r then
        (let p = l + (r - l) div 2
         in if pivot < xs ! p then bisect pivot xs l p else bisect pivot xs (p + 1) r)
      else l)"
  by pat_completeness auto
termination
  by (relation "measure (\<lambda>(pivot, xs, l, r). r - l)") auto

declare bisect.simps [simp del]

definition binary_insert :: "('v::ord) \<Rightarrow> 'v list \<Rightarrow> 'v list" where
  "binary_insert pivot xs =
     (let l = bisect pivot xs 0 (length xs) in take l xs @ pivot # drop l xs)"

definition binarysort :: "('v::ord) list \<Rightarrow> 'v list \<Rightarrow> 'v list" where
  "binarysort run rest = fold binary_insert rest run"

fun list_sort :: "('v::ord) list \<Rightarrow> 'v list" where
  "list_sort [] = []"
| "list_sort [x] = [x]"
| "list_sort (x0 # x1 # xs) =
     (if x1 < x0 then
        (let n = 2 + count_desc x1 xs
         in binarysort (rev (take n (x0 # x1 # xs))) (drop n (x0 # x1 # xs)))
      else
        (let n = 2 + count_asc x1 xs
         in binarysort (take n (x0 # x1 # xs)) (drop n (x0 # x1 # xs))))"

section \<open>What a run prints and how it ends\<close>

text \<open>What the scripts print.\<close>

datatype message =
    Warn_malformed_xml "string option"
  | Warn_no_usable_baseline string
  | Warn_missing_baseline int
  | Excel_written

text \<open>
  A computation ends by \<^verbatim>\<open>raise SystemExit(msg)\<close>, by an exception that nothing
  catches (the \<^verbatim>\<open>AttributeError\<close> of \<^verbatim>\<open>root.findall\<close> on a root that is
  \<^verbatim>\<open>None\<close>, the \<^verbatim>\<open>IndexError\<close> of closing a workbook without a sheet), or with
  its value. The first two end the process with exit status 1.
\<close>

datatype 'a outcome = SystemExit string | Uncaught_exception | Completed 'a

fun exit_status :: "'a outcome \<Rightarrow> int" where
  "exit_status (SystemExit msg) = 1"
| "exit_status Uncaught_exception = 1"
| "exit_status (Completed x) = 0"

text \<open>
  Statements in sequence: what the first printed and, unless it raised, what the rest
  prints. \<open>run_loop body xs s\<close> is \<^verbatim>\<open>for x in xs: body\<close> on the state \<open>s\<close>.
\<close>

definition and_then ::
  "message list \<times> 'a outcome \<Rightarrow> ('a \<Rightarrow> message list \<times> 'b outcome) \<Rightarrow> message list \<times> 'b outcome"
where
  "and_then first rest =
     (case first of
        (out, Completed x) \<Rightarrow> (case rest x of (out', r) \<Rightarrow> (out @ out', r))
      | (out, SystemExit msg) \<Rightarrow> (out, SystemExit msg)
      | (out, Uncaught_exception) \<Rightarrow> (out, Uncaught_exception))"

fun run_loop ::
  "('a \<Rightarrow> 's \<Rightarrow> message list \<times> 's outcome) \<Rightarrow> 'a list \<Rightarrow> 's \<Rightarrow> message list \<times> 's outcome"
where
  "run_loop body [] s = ([], Completed s)"
| "run_loop body (x # xs) s = and_then (body x s) (run_loop body xs)"

section \<open>export\_pt\_delay\_excel.py: the stop-delay extractor\<close>

text \<open>
  One \<^verbatim>\<open>stopinfo\<close> element, with the three attributes the script reads; \<open>None\<close> is an
  attribute the element does not have.
\<close>

record stopinfo =
  attr_busStop :: "string option"
  attr_stop :: "string option"
  attr_delay :: "string option"

text \<open>
  What \<^verbatim>\<open>_parse_root(path)\<close> does on a file: it raises (a file that is missing, or
  that the parser refuses), it returns \<^verbatim>\<open>None\<close> (lxml's recovering parser on a file
  in which it finds no element), or it returns a root, of which \<open>Found\<close> keeps what the
  caller's \<^verbatim>\<open>findall\<close> loop reads.
\<close>

datatype 'e parsed = Parse_raises | Root_none | Found "'e list"

text \<open>
  The world of export\_pt\_delay\_excel.py: \<open>listdir\<close> is \<^verbatim>\<open>os.listdir(simdir)\<close>, files are
  named by their name in \<^verbatim>\<open>simdir\<close>, \<open>path_exists\<close> is \<^verbatim>\<open>os.path.exists\<close>, and
  \<open>stopinfos p\<close> is \<^verbatim>\<open>_parse_root(p)\<close> with the elements of
  \<^verbatim>\<open>findall(".//stopinfo")\<close>. \<open>to_float\<close> is \<^verbatim>\<open>float\<close> (\<open>None\<close> for ValueError) and
  \<open>match_mixed name\<close> is \<^verbatim>\<open>STOP_MIXED_RE.match(name)\<close> with both groups through
  \<^verbatim>\<open>int\<close>.
\<close>

record 'v world =
  listdir :: "string list"
  path_exists :: "string \<Rightarrow> bool"
  stopinfos :: "string \<Rightarrow> stopinfo parsed"
  to_float :: "string \<Rightarrow> 'v option"
  match_mixed :: "string \<Rightarrow> (int \<times> int) option"

text \<open>\<^verbatim>\<open>el.attrib.get("busStop") or el.attrib.get("stop")\<close>: an empty string is falsy.\<close>

definition stop_id_of :: "stopinfo \<Rightarrow> string option" where
  "stop_id_of el =
     (case attr_busStop el of
        None \<Rightarrow> attr_stop el
      | Some s \<Rightarrow> if s \<noteq> [] then Some s else attr_stop el)"

text \<open>The loop over the elements (lines 49 to 57).\<close>

fun stopinfo_loop ::
  "(string \<Rightarrow> 'v option) \<Rightarrow> stopinfo list \<Rightarrow> (string, 'v list) dict \<Rightarrow> (string, 'v list) dict"
where
  "stopinfo_loop flt [] delays = delays"
| "stopinfo_loop flt (el # els) delays =
     (case stop_id_of el of
        None \<Rightarrow> stopinfo_loop flt els delays
      | Some stop_id \<Rightarrow>
          if stop_id = [] then stopinfo_loop flt els delays
          else
            (case flt (case attr_delay el of None \<Rightarrow> ''0'' | Some s \<Rightarrow> s) of
               None \<Rightarrow> stopinfo_loop flt els delays
             | Some delay \<Rightarrow> stopinfo_loop flt els (dict_append stop_id delay delays)))"

text \<open>\<^verbatim>\<open>for k in delays: delays[k].sort()\<close>.\<close>

definition sort_all :: "(string, ('v::ord) list) dict \<Rightarrow> (string, 'v list) dict" where
  "sort_all delays = map (\<lambda>(k, xs). (k, list_sort xs)) delays"

text \<open>
  \<^verbatim>\<open>parse_stop_delays(path)\<close>: the printed warning and the returned dict, or the
  exception of \<^verbatim>\<open>root.findall\<close>, which stands after the \<^verbatim>\<open>try\<close>. The path is \<open>None\<close>
  when the caller passes Python's \<^verbatim>\<open>None\<close>, for which \<^verbatim>\<open>_parse_root\<close> raises.
\<close>

definition parse_root :: "'v world \<Rightarrow> string option \<Rightarrow> stopinfo parsed" where
  "parse_root w path = (case path of None \<Rightarrow> Parse_raises | Some p \<Rightarrow> stopinfos w p)"

definition parse_stop_delays ::
  "('v::ord) world \<Rightarrow> string option \<Rightarrow> message list \<times> (string, 'v list) dict outcome"
where
  "parse_stop_delays w path =
     (case parse_root w path of
        Parse_raises \<Rightarrow> ([Warn_malformed_xml path], Completed [])
      | Root_none \<Rightarrow> ([], Uncaught_exception)
      | Found els \<Rightarrow> ([], Completed (sort_all (stopinfo_loop (to_float w) els []))))"

section \<open>export\_pt\_delay\_excel.py: aligning a replicate with its baseline\<close>

text \<open>One row of a value's table (lines 135 to 143).\<close>

record 'v row =
  row_value :: int
  row_sim :: int
  row_stop :: string
  row_occurrence :: int
  delay_baseline_s :: 'v
  delay_mixed_s :: 'v
  delay_delta_s :: 'v

text \<open>The inner loop \<^verbatim>\<open>for idx in range(n)\<close> with \<open>n\<close> the shorter length.\<close>

definition align_stop ::
  "int \<Rightarrow> int \<Rightarrow> string \<Rightarrow> ('v::minus) list \<Rightarrow> 'v list \<Rightarrow> 'v row list"
where
  "align_stop value sim stop_id base_list mix_list =
     map (\<lambda>idx. \<lparr>row_value = value, row_sim = sim, row_stop = stop_id,
                  row_occurrence = int idx + 1,
                  delay_baseline_s = base_list ! idx,
                  delay_mixed_s = mix_list ! idx,
                  delay_delta_s = mix_list ! idx - base_list ! idx\<rparr>)
         [0..<min (length base_list) (length mix_list)]"

text \<open>
  The loop \<^verbatim>\<open>for stop_id, base_list in base.items()\<close> (lines 129 to 143): a stop that
  \<^verbatim>\<open>mixed.get\<close> does not find, or finds with an empty list, is passed over.
\<close>

fun align_rows ::
  "int \<Rightarrow> int \<Rightarrow> (string, ('v::minus) list) dict \<Rightarrow> (string, 'v list) dict \<Rightarrow> 'v row list"
where
  "align_rows value sim [] mixed = []"
| "align_rows value sim ((stop_id, base_list) # base) mixed =
     (case map_of mixed stop_id of
        None \<Rightarrow> align_rows value sim base mixed
      | Some mix_list \<Rightarrow>
          if mix_list = [] then align_rows value sim base mixed
          else align_stop value sim stop_id base_list mix_list @ align_rows value sim base mixed)"

section \<open>export\_pt\_delay\_excel.py: baselines, file discovery and the value loop\<close>

definition generate_values :: "int list" where
  "generate_values = py_range 1000 (33000 + 1) 1000 @ py_range 36000 (58000 + 1) 2000"

text \<open>\<^verbatim>\<open>_find_baseline_path\<close>: the first candidate that exists, else the empty string.\<close>

definition find_baseline_path :: "'v world \<Rightarrow> int \<Rightarrow> string" where
  "find_baseline_path w sim_index =
     (let candidates =
        [''stop_events_baseline_'' @ str_int sim_index @ ''.xml'',
         ''stop_events_0_'' @ str_int sim_index @ ''.xml'']
      in case filter (path_exists w) candidates of [] \<Rightarrow> [] | p # _ \<Rightarrow> p)"

text \<open>
  One turn of the loop over \<^verbatim>\<open>range(1, args.sims + 1)\<close> that loads the baselines
  (lines 94 to 103), on the dict \<^verbatim>\<open>baselines\<close>.
\<close>

definition baseline_step ::
  "('v::ord) world \<Rightarrow> int \<Rightarrow> (int, (string, 'v list) dict) dict
     \<Rightarrow> message list \<times> (int, (string, 'v list) dict) dict outcome"
where
  "baseline_step w sim baselines =
     (let p = find_baseline_path w sim in
      if p \<noteq> [] then
        and_then (parse_stop_delays w (Some p))
          (\<lambda>b. if b \<noteq> [] then ([], Completed (AList.update sim b baselines))
               else ([Warn_no_usable_baseline p], Completed baselines))
      else ([Warn_missing_baseline sim], Completed baselines))"

definition load_baselines ::
  "('v::ord) world \<Rightarrow> int \<Rightarrow> message list \<times> (int, (string, 'v list) dict) dict outcome"
where
  "load_baselines w sims = run_loop (baseline_step w) (py_range 1 (sims + 1) 1) []"

text \<open>
  The loop over \<^verbatim>\<open>os.listdir(simdir)\<close> (lines 106 to 113):
  \<^verbatim>\<open>value_to_simpaths[value][sim] = path\<close> on a \<^verbatim>\<open>defaultdict(dict)\<close>.
\<close>

definition index_step ::
  "'v world \<Rightarrow> string \<Rightarrow> (int, (int, string) dict) dict \<Rightarrow> (int, (int, string) dict) dict"
where
  "index_step w name v2s =
     (case match_mixed w name of
        None \<Rightarrow> v2s
      | Some (value, sim) \<Rightarrow>
          AList.update value
            (AList.update sim name (case map_of v2s value of None \<Rightarrow> [] | Some d \<Rightarrow> d)) v2s)"

definition value_to_simpaths :: "'v world \<Rightarrow> (int, (int, string) dict) dict" where
  "value_to_simpaths w = fold (index_step w) (listdir w) []"

text \<open>\<^verbatim>\<open>value_to_simpaths.get(value, {}).get(sim)\<close>.\<close>

definition mixed_path :: "(int, (int, string) dict) dict \<Rightarrow> int \<Rightarrow> int \<Rightarrow> string option" where
  "mixed_path v2s value sim =
     (case map_of v2s value of None \<Rightarrow> None | Some d \<Rightarrow> map_of d sim)"

text \<open>
  One turn of \<^verbatim>\<open>for sim in range(1, args.sims + 1)\<close> (lines 122 to 143) on the list
  \<^verbatim>\<open>rows\<close>: the mixed file is parsed first, then a replicate without a baseline is
  passed over.
\<close>

definition sim_step ::
  "('v::{ord,minus}) world \<Rightarrow> (int, (string, 'v list) dict) dict
     \<Rightarrow> (int, (int, string) dict) dict \<Rightarrow> int \<Rightarrow> int \<Rightarrow> 'v row list
     \<Rightarrow> message list \<times> 'v row list outcome"
where
  "sim_step w baselines v2s value sim rows =
     and_then (parse_stop_delays w (mixed_path v2s value sim))
       (\<lambda>mixed.
          (case map_of baselines sim of
             None \<Rightarrow> ([], Completed rows)
           | Some base \<Rightarrow>
               if base = [] then ([], Completed rows)
               else ([], Completed (rows @ align_rows value sim base mixed))))"

definition rows_for_value ::
  "('v::{ord,minus}) world \<Rightarrow> (int, (string, 'v list) dict) dict
     \<Rightarrow> (int, (int, string) dict) dict \<Rightarrow> int \<Rightarrow> int \<Rightarrow> message list \<times> 'v row list outcome"
where
  "rows_for_value w baselines v2s sims value =
     run_loop (sim_step w baselines v2s value) (py_range 1 (sims + 1) 1) []"

section \<open>The summary statistics\<close>

record summary_row =
  s_value :: int
  s_count :: int
  s_mean :: real
  s_median :: real
  s_p10 :: real
  s_p90 :: real
  s_min :: real
  s_max :: real

text \<open>
  Modelled from the spec: \<^verbatim>\<open>Series.describe(percentiles=[0.1, 0.5, 0.9])\<close> is pandas, not
  code of the repository. The spec's Summarizer computes "count, arithmetic mean, median,
  10th and 90th percentiles (linear interpolation between order statistics), min, and max of
  the delta field". The percentile at \<open>q\<close> of \<open>n\<close> values is read at the position
  \<open>q * (n - 1)\<close> of the sorted values, interpolating linearly between the two neighbouring
  order statistics.
\<close>

definition describe_mean :: "real list \<Rightarrow> real" where
  "describe_mean xs = sum_list xs / real (length xs)"

definition describe_percentile :: "real \<Rightarrow> real list \<Rightarrow> real" where
  "describe_percentile q xs =
     (let s = sort xs;
          h = q * real (length xs - 1);
          lo = nat \<lfloor>h\<rfloor>;
          hi = min (lo + 1) (length xs - 1)
      in s ! lo + (h - real lo) * (s ! hi - s ! lo))"

fun describe_min :: "real list \<Rightarrow> real" where
  "describe_min [] = 0"
| "describe_min (x # xs) = fold min xs x"

fun describe_max :: "real list \<Rightarrow> real" where
  "describe_max [] = 0"
| "describe_max (x # xs) = fold max xs x"

text \<open>
  The summary row of one value (lines 163 to 185 of export\_pt\_delay\_excel.py, lines 138 to
  160 of get\_table\_of\_old\_methode.py) from the delta column of its table.
\<close>

definition summarize :: "int \<Rightarrow> real list \<Rightarrow> summary_row" where
  "summarize value deltas =
     (if length deltas > 0 then
        \<lparr>s_value = value, s_count = int (length deltas),
         s_mean = describe_mean deltas,
         s_median = describe_percentile (5 / 10) deltas,
         s_p10 = describe_percentile (1 / 10) deltas,
         s_p90 = describe_percentile (9 / 10) deltas,
         s_min = describe_min deltas,
         s_max = describe_max deltas\<rparr>
      else
        \<lparr>s_value = value, s_count = 0, s_mean = 0, s_median = 0, s_p10 = 0, s_p90 = 0,
         s_min = 0, s_max = 0\<rparr>)"

section \<open>The workbook\<close>

text \<open>One row of a table of get\_table\_of\_old\_methode.py (lines 122 to 128).\<close>

record trip_row =
  vehicle_id :: string
  baseline_duration_s :: real
  avg_duration_s :: real
  delay_s :: real
  sims_count :: int

text \<open>
  A sheet is the table handed to \<^verbatim>\<open>to_excel\<close>: the rows of a value, each with the
  per-stop mean of the deltas that the merge adds (lines 154 to 160), the rows of a value of
  the other script, or the summary.
\<close>

datatype sheet =
    Detail "(real row \<times> real) list"
  | Trip_detail "trip_row list"
  | Summary "summary_row list"

type_synonym workbook = "(string \<times> sheet) list"

definition stop_avg_delta_s :: "real row list \<Rightarrow> string \<Rightarrow> real" where
  "stop_avg_delta_s rows s =
     describe_mean (map delay_delta_s (filter (\<lambda>r. row_stop r = s) rows))"

definition detail_sheet :: "real row list \<Rightarrow> (real row \<times> real) list" where
  "detail_sheet rows =
     (if length rows > 0 then map (\<lambda>r. (r, stop_avg_delta_s rows (row_stop r))) rows else [])"

text \<open>
  Leaving the \<^verbatim>\<open>with pd.ExcelWriter(...)\<close> block closes the writer, which saves the
  workbook: with the openpyxl engine this raises \<^verbatim>\<open>IndexError\<close> when no sheet was
  written.
\<close>

definition close_writer :: "workbook \<Rightarrow> message list \<times> workbook outcome" where
  "close_writer wb = (if wb = [] then ([], Uncaught_exception) else ([], Completed wb))"

section \<open>export\_pt\_delay\_excel.py: main\<close>

text \<open>
  One turn of \<^verbatim>\<open>for value in values\<close> (lines 120 to 185), on the sheets written so
  far and the list \<^verbatim>\<open>summaries\<close>.
\<close>

definition value_step ::
  "real world \<Rightarrow> (int, (string, real list) dict) dict \<Rightarrow> (int, (int, string) dict) dict
     \<Rightarrow> int \<Rightarrow> int \<Rightarrow> workbook \<times> summary_row list
     \<Rightarrow> message list \<times> (workbook \<times> summary_row list) outcome"
where
  "value_step w baselines v2s sims value st =
     and_then (rows_for_value w baselines v2s sims value)
       (\<lambda>rows.
          ([], Completed
                 (fst st @ [(str_int value, Detail (detail_sheet rows))],
                  snd st @ [summarize value (map delay_delta_s rows)])))"

definition main_excel :: "real world \<Rightarrow> int \<Rightarrow> message list \<times> workbook outcome" where
  "main_excel w sims =
     and_then (load_baselines w sims)
       (\<lambda>baselines.
          and_then
            (run_loop (value_step w baselines (value_to_simpaths w) sims) generate_values
               ([], []))
            (\<lambda>st.
               and_then
                 (close_writer
                    (fst st @
                     (if snd st \<noteq> [] then [(''summary'', Summary (sort_key s_value (snd st)))]
                      else [])))
                 (\<lambda>wb. ([Excel_written], Completed wb))))"

section \<open>get\_table\_of\_old\_methode.py\<close>

text \<open>
  The world of get\_table\_of\_old\_methode.py. \<open>kept_trips p\<close> is \<^verbatim>\<open>_parse_root(p)\<close> with,
  in document order, the pairs \<^verbatim>\<open>(vid, dur)\<close> that the loop of
  \<^verbatim>\<open>extract_pt_durations\<close> stores for file \<open>p\<close> (the \<^verbatim>\<open>tripinfo\<close> elements that pass
  its filters, lines 45 to 64). The durations are finite: a record without
  \<^verbatim>\<open>duration\<close>, \<^verbatim>\<open>arrival\<close> and \<^verbatim>\<open>depart\<close>, for which the loop stores NaN, is not
  in the model. \<open>match_tripinfo name\<close> is \<^verbatim>\<open>TRIPINFO_RE.match(name)\<close> with both groups
  through \<^verbatim>\<open>int\<close>.
\<close>

record trip_world =
  trip_listdir :: "string list"
  kept_trips :: "string \<Rightarrow> (string \<times> real) parsed"
  match_tripinfo :: "string \<Rightarrow> (int \<times> int) option"

definition extract_pt_durations ::
  "trip_world \<Rightarrow> string \<Rightarrow> message list \<times> (string, real) dict outcome"
where
  "extract_pt_durations w path =
     (case kept_trips w path of
        Parse_raises \<Rightarrow> ([Warn_malformed_xml (Some path)], Completed [])
      | Root_none \<Rightarrow> ([], Uncaught_exception)
      | Found kept \<Rightarrow>
          ([], Completed (fold (\<lambda>(vid, dur) durations. AList.update vid dur durations) kept [])))"

text \<open>\<^verbatim>\<open>discover_value_to_sims\<close>: the lists are sorted by replicate index.\<close>

definition discover_step ::
  "trip_world \<Rightarrow> string \<Rightarrow> (int, (int \<times> string) list) dict \<Rightarrow> (int, (int \<times> string) list) dict"
where
  "discover_step w name mapping =
     (case match_tripinfo w name of
        None \<Rightarrow> mapping
      | Some (value, sim) \<Rightarrow> dict_append value (sim, name) mapping)"

definition discover_value_to_sims :: "trip_world \<Rightarrow> (int, (int \<times> string) list) dict" where
  "discover_value_to_sims w =
     map (\<lambda>(value, files). (value, sort_key fst files))
       (fold (discover_step w) (trip_listdir w) [])"

text \<open>
  \<^verbatim>\<open>vessel_to_sum[vid] += dur; vessel_to_count[vid] += 1\<close> for every item of one
  replicate's durations (lines 111 to 113).
\<close>

definition add_dur ::
  "string \<times> real \<Rightarrow> (string, real) dict \<times> (string, int) dict
     \<Rightarrow> (string, real) dict \<times> (string, int) dict"
where
  "add_dur item st =
     (case item of (vid, dur) \<Rightarrow>
        (case st of (vessel_to_sum, vessel_to_count) \<Rightarrow>
           (AList.update vid
              ((case map_of vessel_to_sum vid of None \<Rightarrow> 0 | Some x \<Rightarrow> x) + dur) vessel_to_sum,
            AList.update vid
              ((case map_of vessel_to_count vid of None \<Rightarrow> 0 | Some c \<Rightarrow> c) + 1)
              vessel_to_count)))"

definition add_durs ::
  "(string, real) dict \<Rightarrow> (string, real) dict \<times> (string, int) dict
     \<Rightarrow> (string, real) dict \<times> (string, int) dict"
where
  "add_durs durs st = fold add_dur durs st"

text \<open>One turn of \<^verbatim>\<open>for _, path in per_sim_files\<close> (lines 109 to 113).\<close>

definition file_step ::
  "trip_world \<Rightarrow> int \<times> string \<Rightarrow> (string, real) dict \<times> (string, int) dict
     \<Rightarrow> message list \<times> ((string, real) dict \<times> (string, int) dict) outcome"
where
  "file_step w file totals =
     and_then (extract_pt_durations w (snd file))
       (\<lambda>durs. ([], Completed (add_durs durs totals)))"

text \<open>The loop \<^verbatim>\<open>for vid, base_dur in baseline.items()\<close> (lines 117 to 128).\<close>

fun trip_rows ::
  "(string, real) dict \<Rightarrow> (string, real) dict \<Rightarrow> (string, int) dict \<Rightarrow> trip_row list"
where
  "trip_rows [] vessel_to_sum vessel_to_count = []"
| "trip_rows ((vid, base_dur) # baseline) vessel_to_sum vessel_to_count =
     (case map_of vessel_to_sum vid of
        None \<Rightarrow> trip_rows baseline vessel_to_sum vessel_to_count
      | Some vsum \<Rightarrow>
          (let n = (case map_of vessel_to_count vid of None \<Rightarrow> 0 | Some c \<Rightarrow> c);
               avg_dur = vsum / real_of_int (max 1 n);
               delay = avg_dur - base_dur
           in \<lparr>vehicle_id = vid, baseline_duration_s = base_dur, avg_duration_s = avg_dur,
                delay_s = delay, sims_count = n\<rparr>
              # trip_rows baseline vessel_to_sum vessel_to_count))"

text \<open>
  One turn of \<^verbatim>\<open>for value in all_values\<close> (lines 104 to 160), on the sheets written
  so far and the list \<^verbatim>\<open>summaries\<close>.
\<close>

definition trip_value_step ::
  "trip_world \<Rightarrow> (string, real) dict \<Rightarrow> (int, (int \<times> string) list) dict \<Rightarrow> int
     \<Rightarrow> workbook \<times> summary_row list
     \<Rightarrow> message list \<times> (workbook \<times> summary_row list) outcome"
where
  "trip_value_step w baseline value_to_sims value st =
     (let per_sim_files = (case map_of value_to_sims value of None \<Rightarrow> [] | Some fs \<Rightarrow> fs)
      in and_then (run_loop (file_step w) per_sim_files ([], []))
           (\<lambda>totals.
              (let rows = trip_rows baseline (fst totals) (snd totals)
               in ([], Completed
                         (fst st @ [(str_int value, Trip_detail rows)],
                          snd st @ [summarize value (map delay_s rows)])))))"

definition main_tripinfo :: "trip_world \<Rightarrow> string \<Rightarrow> message list \<times> workbook outcome" where
  "main_tripinfo w baseline_path =
     and_then (extract_pt_durations w baseline_path)
       (\<lambda>baseline.
          if baseline = [] then
            ([], SystemExit (''No baseline PT durations parsed from: '' @ baseline_path))
          else
            (let value_to_sims = discover_value_to_sims w;
                 all_values = sort (map fst value_to_sims)
             in and_then
                  (run_loop (trip_value_step w baseline value_to_sims) all_values ([], []))
                  (\<lambda>st.
                     and_then
                       (close_writer
                          (fst st @
                           (if snd st \<noteq> []
                            then [(''summary'', Summary (sort_key s_value (snd st)))]
                            else [])))
                       (\<lambda>wb. ([Excel_written], Completed wb)))))"

section \<open>Binary64\<close>

text \<open>
  Python's float is IEEE 754 binary64. \<open>F64 m e\<close> is the finite number \<open>m * 2 ^ e\<close>;
  the results of the operations keep \<open>m\<close> odd (or are \<open>F64 0 0\<close>), so that equal
  results are equal terms. The difference of two finite floats is their exact difference
  rounded to 53 significant bits, ties to even, and an infinity when the rounded number
  reaches \<open>2 ^ 1024\<close>. (The difference of two binary64 numbers is never rounded in the
  subnormal range, where it is a multiple of \<open>2 ^ (- 1074)\<close> below \<open>2 ^ (- 1022)\<close>.)
  The sign of zero is not kept: \<open>0.0\<close> and \<open>-0.0\<close> compare equal.
\<close>

datatype f64 = F64 int int | PosInf | NegInf | NaN

function bit_length :: "int \<Rightarrow> int" where
  "bit_length n = (if n \<le> 0 then 0 else 1 + bit_length (n div 2))"
  by pat_completeness auto
termination
  by (relation "measure (\<lambda>n. nat n)") auto

declare bit_length.simps [simp del]

definition round_half_even :: "int \<Rightarrow> nat \<Rightarrow> int" where
  "round_half_even m k =
     (let q = m div 2 ^ k; r = m mod 2 ^ k
      in if 2 * r < 2 ^ k then q
         else if 2 ^ k < 2 * r then q + 1
         else if even q then q else q + 1)"

function f64_norm :: "int \<Rightarrow> int \<Rightarrow> f64" where
  "f64_norm m e =
     (if m = 0 then F64 0 0 else if even m then f64_norm (m div 2) (e + 1) else F64 m e)"
  by pat_completeness auto
termination
  by (relation "measure (\<lambda>(m, e). nat \<bar>m\<bar>)") auto

declare f64_norm.simps [simp del]

definition f64_round :: "int \<Rightarrow> int \<Rightarrow> f64" where
  "f64_round m e =
     (let k = nat (bit_length \<bar>m\<bar> - 53);
          r = round_half_even m k
      in if 1024 < bit_length \<bar>r\<bar> + (e + int k)
         then (if 0 < m then PosInf else NegInf)
         else f64_norm r (e + int k))"

fun f64_sub :: "f64 \<Rightarrow> f64 \<Rightarrow> f64" where
  "f64_sub NaN y = NaN"
| "f64_sub x NaN = NaN"
| "f64_sub PosInf PosInf = NaN"
| "f64_sub NegInf NegInf = NaN"
| "f64_sub PosInf y = PosInf"
| "f64_sub NegInf y = NegInf"
| "f64_sub x PosInf = NegInf"
| "f64_sub x NegInf = PosInf"
| "f64_sub (F64 m1 e1) (F64 m2 e2) =
     (let e = min e1 e2
      in f64_round (m1 * 2 ^ nat (e1 - e) - m2 * 2 ^ nat (e2 - e)) e)"

text \<open>\<open>x < y\<close> on floats: false as soon as one of them is NaN.\<close>

fun f64_less :: "f64 \<Rightarrow> f64 \<Rightarrow> bool" where
  "f64_less NaN y = False"
| "f64_less x NaN = False"
| "f64_less PosInf y = False"
| "f64_less x NegInf = False"
| "f64_less NegInf y = True"
| "f64_less x PosInf = True"
| "f64_less (F64 m1 e1) (F64 m2 e2) =
     (let e = min e1 e2 in m1 * 2 ^ nat (e1 - e) < m2 * 2 ^ nat (e2 - e))"

instantiation f64 :: "{minus, zero, ord}"
begin

definition minus_f64 :: "f64 \<Rightarrow> f64 \<Rightarrow> f64" where
  "minus_f64 x y = f64_sub x y"

definition zero_f64 :: f64 where
  "zero_f64 = F64 0 0"

definition less_f64 :: "f64 \<Rightarrow> f64 \<Rightarrow> bool" where
  "less_f64 x y = f64_less x y"

definition less_eq_f64 :: "f64 \<Rightarrow> f64 \<Rightarrow> bool" where
  "less_eq_f64 x y = (x \<noteq> NaN \<and> y \<noteq> NaN \<and> \<not> f64_less y x)"

instance ..

end

text \<open>
  The real number a finite float stands for, and a key that orders the floats other than
  NaN as \<open><\<close> does: the class of the float first, then its number.
\<close>

fun valof :: "f64 \<Rightarrow> real" where
  "valof (F64 m e) = of_int m * 2 powi e"
| "valof x = 0"

fun f64_key :: "f64 \<Rightarrow> int \<times> real" where
  "f64_key NegInf = (0, 0)"
| "f64_key (F64 m e) = (1, of_int m * 2 powi e)"
| "f64_key PosInf = (2, 0)"
| "f64_key NaN = (3, 0)"

fun is_finite :: "f64 \<Rightarrow> bool" where
  "is_finite (F64 m e) = True"
| "is_finite x = False"

section \<open>Reading a run\<close>

text \<open>The value of a computation that completed, and a default otherwise.\<close>

definition result_or :: "'a \<Rightarrow> message list \<times> 'a outcome \<Rightarrow> 'a" where
  "result_or d r = (case snd r of Completed x \<Rightarrow> x | _ \<Rightarrow> d)"

text \<open>
  In a workbook: the rows of the summary sheet, the rows of all the tables of
  export\_pt\_delay\_excel.py, and the rows of one table of get\_table\_of\_old\_methode.py.
  \<open>zero_summary\<close> is the summary row of a value without rows.
\<close>

definition summary_rows :: "workbook \<Rightarrow> summary_row list" where
  "summary_rows wb = concat (map (\<lambda>(name, sh). case sh of Summary rs \<Rightarrow> rs | _ \<Rightarrow> []) wb)"

definition detail_rows :: "workbook \<Rightarrow> real row list" where
  "detail_rows wb =
     concat (map (\<lambda>(name, sh). case sh of Detail rs \<Rightarrow> map fst rs | _ \<Rightarrow> []) wb)"

fun trip_sheet_rows :: "sheet \<Rightarrow> trip_row list" where
  "trip_sheet_rows (Trip_detail rows) = rows"
| "trip_sheet_rows sh = []"

definition zero_summary :: "int \<Rightarrow> summary_row" where
  "zero_summary value =
     \<lparr>s_value = value, s_count = 0, s_mean = 0, s_median = 0, s_p10 = 0, s_p90 = 0,
      s_min = 0, s_max = 0\<rparr>"

text \<open>
  In a run of export\_pt\_delay\_excel.py: the dict \<^verbatim>\<open>baselines\<close> after its loop, the
  MeasurementSet of one file, and the list \<^verbatim>\<open>rows\<close> of one value after the loop over
  the replicates.
\<close>

definition loaded_baselines :: "('v::ord) world \<Rightarrow> int \<Rightarrow> (int, (string, 'v list) dict) dict" where
  "loaded_baselines w sims = result_or [] (load_baselines w sims)"

definition parsed_delays :: "('v::ord) world \<Rightarrow> string option \<Rightarrow> (string, 'v list) dict" where
  "parsed_delays w path = result_or [] (parse_stop_delays w path)"

definition excel_rows :: "real world \<Rightarrow> int \<Rightarrow> int \<Rightarrow> real row list" where
  "excel_rows w sims value =
     result_or []
       (rows_for_value w (loaded_baselines w sims) (value_to_simpaths w) sims value)"

text \<open>
  In a run of get\_table\_of\_old\_methode.py: the values in the order of the sheets, the
  files of one value, and the durations extracted from one file.
\<close>

definition trip_values :: "trip_world \<Rightarrow> int list" where
  "trip_values w = sort (map fst (discover_value_to_sims w))"

definition trip_files :: "trip_world \<Rightarrow> int \<Rightarrow> (int \<times> string) list" where
  "trip_files w value =
     (case map_of (discover_value_to_sims w) value of None \<Rightarrow> [] | Some fs \<Rightarrow> fs)"

definition durations_of :: "trip_world \<Rightarrow> string \<Rightarrow> (string, real) dict" where
  "durations_of w p = result_or [] (extract_pt_durations w p)"

text \<open>
  The list \<^verbatim>\<open>rows\<close> of one value in a run of get\_table\_of\_old\_methode.py, after the
  loop of \<open>file_step\<close> over its files and the loop of \<open>trip_rows\<close> over the baseline.
\<close>

definition trip_table :: "trip_world \<Rightarrow> string \<Rightarrow> int \<Rightarrow> trip_row list" where
  "trip_table w baseline_path value =
     (let totals = result_or ([], []) (run_loop (file_step w) (trip_files w value) ([], []))
      in trip_rows (durations_of w baseline_path) (fst totals) (snd totals))"

section \<open>Notions used in the statements\<close>

text \<open>Every list of a dict is not empty.\<close>

definition nonempty_lists :: "('k, 'a list) dict \<Rightarrow> bool" where
  "nonempty_lists d = (\<forall>kv \<in> set d. snd kv \<noteq> [])"

text \<open>A list of floats in non-decreasing order: no element is \<open><\<close> an earlier one.\<close>

definition ascending :: "('v::ord) list \<Rightarrow> bool" where
  "ascending xs = sorted_wrt (\<lambda>a b. \<not> b < a) xs"


text \<open>\<^verbatim>\<open>d[k]\<close> on a \<^verbatim>\<open>defaultdict\<close> of numbers: 0 for a missing key.\<close>

definition get0 :: "('k, 'a::zero) dict \<Rightarrow> 'k \<Rightarrow> 'a" where
  "get0 d k = (case map_of d k of None \<Rightarrow> 0 | Some x \<Rightarrow> x)"

text \<open>
  The spec's words for one record. Its identity: "attribute busStop or, if absent, stop".
  Its value: "attribute delay parsed as float, defaulting to 0 on missing attribute and
  skipping the record entirely when present-but-unparseable" (\<open>None\<close> is the skipped
  record).
\<close>

definition spec_identity :: "stopinfo \<Rightarrow> string option" where
  "spec_identity el = (case attr_busStop el of Some s \<Rightarrow> Some s | None \<Rightarrow> attr_stop el)"

definition delay_of :: "(string \<Rightarrow> ('v::zero) option) \<Rightarrow> stopinfo \<Rightarrow> 'v option" where
  "delay_of flt el = (case attr_delay el of None \<Rightarrow> Some 0 | Some s \<Rightarrow> flt s)"

text \<open>
  The occurrences of identity \<open>k\<close> in a file, in file order, for a given reading
  \<open>ident\<close> of the identity of a record, and the entry of \<open>k\<close> in the MeasurementSet:
  the occurrences as \<^verbatim>\<open>list.sort()\<close> leaves them, and no entry without occurrences.
\<close>

definition occurrences ::
  "(stopinfo \<Rightarrow> string option) \<Rightarrow> (string \<Rightarrow> ('v::zero) option) \<Rightarrow> stopinfo list \<Rightarrow> string
     \<Rightarrow> 'v list"
where
  "occurrences ident flt els k =
     List.map_filter (delay_of flt) (filter (\<lambda>el. ident el = Some k) els)"

definition stored_occurrences ::
  "(stopinfo \<Rightarrow> string option) \<Rightarrow> (string \<Rightarrow> ('v::{ord,zero}) option) \<Rightarrow> stopinfo list
     \<Rightarrow> string \<Rightarrow> 'v list option"
where
  "stored_occurrences ident flt els k =
     (if occurrences ident flt els k = [] then None
      else Some (list_sort (occurrences ident flt els k)))"

section \<open>Example inputs\<close>

text \<open>
  \<^verbatim>\<open>float(s)\<close> on the strings the examples use: a string of ASCII digits is the number it
  writes, \<^verbatim>\<open>nan\<close> is NaN (for \<open>f64\<close>), and every other string of the examples raises
  ValueError.
\<close>

definition digits_value :: "string \<Rightarrow> int option" where
  "digits_value s =
     (if s \<noteq> [] \<and> list_all (\<lambda>c. c \<in> set ''0123456789'') s
      then Some (foldl (\<lambda>n c. 10 * n + (of_char c - 48)) 0 s) else None)"

definition float_of_digits :: "string \<Rightarrow> real option" where
  "float_of_digits s = map_option of_int (digits_value s)"

definition f64_of_string :: "string \<Rightarrow> f64 option" where
  "f64_of_string s =
     (if s = ''nan'' then Some NaN else map_option (\<lambda>n. f64_norm n 0) (digits_value s))"

definition stopinfo_el :: "string option \<Rightarrow> string option \<Rightarrow> string option \<Rightarrow> stopinfo" where
  "stopinfo_el b s d = \<lparr>attr_busStop = b, attr_stop = s, attr_delay = d\<rparr>"

text \<open>
  A directory with the baseline of replicate 1, the baseline of replicate 2 under its
  fallback name, and the file of value 1000 for replicate 1 only, read with the float
  parser \<open>flt\<close>: over the reals, and over binary64.
\<close>

definition demo_dir :: "(string \<Rightarrow> 'v option) \<Rightarrow> 'v world" where
  "demo_dir flt =
     \<lparr>listdir = [''stop_events_1000_1.xml'', ''notes.txt'', ''stop_events_baseline_1.xml'',
                 ''stop_events_0_2.xml''],
      path_exists = (\<lambda>p. p \<in> set [''stop_events_1000_1.xml'', ''stop_events_baseline_1.xml'',
                                     ''stop_events_0_2.xml'']),
      stopinfos = (\<lambda>p.
         if p = ''stop_events_baseline_1.xml'' then
           Found [stopinfo_el (Some ''A'') None (Some ''20''),
                  stopinfo_el None (Some ''A'') (Some ''10'')]
         else if p = ''stop_events_0_2.xml'' then
           Found [stopinfo_el (Some ''A'') None (Some ''10'')]
         else if p = ''stop_events_1000_1.xml'' then
           Found [stopinfo_el (Some ''A'') None (Some ''21''),
                  stopinfo_el (Some ''B'') None None,
                  stopinfo_el (Some ''A'') None (Some ''12''),
                  stopinfo_el (Some ''A'') None (Some ''x'')]
         else Parse_raises),
      to_float = flt,
      match_mixed = (\<lambda>n. if n = ''stop_events_1000_1.xml'' then Some (1000, 1) else None)\<rparr>"

definition demo_world :: "real world" where
  "demo_world = demo_dir float_of_digits"

definition demo_f64_world :: "f64 world" where
  "demo_f64_world = demo_dir f64_of_string"

text \<open>
  The same directory with a file of value 1000 for replicate 2 in which lxml's recovering
  parser finds no element.
\<close>

definition garbage_world :: "real world" where
  "garbage_world =
     demo_world
       \<lparr>listdir := ''stop_events_1000_2.xml'' # listdir demo_world,
        path_exists := (\<lambda>p. p = ''stop_events_1000_2.xml'' \<or> path_exists demo_world p),
        stopinfos := (\<lambda>p. if p = ''stop_events_1000_2.xml'' then Root_none
                          else stopinfos demo_world p),
        match_mixed := (\<lambda>n. if n = ''stop_events_1000_2.xml'' then Some (1000, 2)
                            else match_mixed demo_world n)\<rparr>"

text \<open>
  A directory without any baseline file, and one whose only baseline file, of replicate 1,
  holds no \<^verbatim>\<open>stopinfo\<close> element.
\<close>

definition no_baseline_world :: "real world" where
  "no_baseline_world =
     \<lparr>listdir = [''stop_events_1000_1.xml''],
      path_exists = (\<lambda>p. p = ''stop_events_1000_1.xml''),
      stopinfos = (\<lambda>p.
         if p = ''stop_events_1000_1.xml'' then Found [stopinfo_el (Some ''A'') None (Some ''21'')]
         else Parse_raises),
      to_float = float_of_digits,
      match_mixed = (\<lambda>n. if n = ''stop_events_1000_1.xml'' then Some (1000, 1) else None)\<rparr>"

definition unusable_baseline_world :: "real world" where
  "unusable_baseline_world =
     \<lparr>listdir = [''stop_events_1000_1.xml'', ''stop_events_baseline_1.xml''],
      path_exists = (\<lambda>p. p = ''stop_events_1000_1.xml'' \<or> p = ''stop_events_baseline_1.xml''),
      stopinfos = (\<lambda>p.
         if p = ''stop_events_1000_1.xml'' then Found [stopinfo_el (Some ''A'') None (Some ''21'')]
         else if p = ''stop_events_baseline_1.xml'' then Found []
         else Parse_raises),
      to_float = float_of_digits,
      match_mixed = (\<lambda>n. if n = ''stop_events_1000_1.xml'' then Some (1000, 1) else None)\<rparr>"

text \<open>
  A baseline \<^verbatim>\<open>tripinfo.xml\<close> with two buses, two replicates of value 5000, and two
  replicates of value 3000 of which one has no bus and the other makes the parser raise.
\<close>

definition demo_trip_world :: trip_world where
  "demo_trip_world =
     \<lparr>trip_listdir = [''4_5000_2_a_sim_output.xml'', ''4_3000_1_a_sim_output.xml'', ''readme.txt'',
                      ''4_5000_1_a_sim_output.xml'', ''4_3000_2_a_sim_output.xml''],
      kept_trips = (\<lambda>p.
         if p = ''tripinfo.xml'' then Found [(''bus_1'', 100), (''bus_2'', 50)]
         else if p = ''4_5000_1_a_sim_output.xml'' then Found [(''bus_1'', 110)]
         else if p = ''4_5000_2_a_sim_output.xml'' then Found [(''bus_1'', 130), (''bus_9'', 7)]
         else if p = ''4_3000_1_a_sim_output.xml'' then Found []
         else Parse_raises),
      match_tripinfo = (\<lambda>n.
         if n = ''4_5000_1_a_sim_output.xml'' then Some (5000, 1)
         else if n = ''4_5000_2_a_sim_output.xml'' then Some (5000, 2)
         else if n = ''4_3000_1_a_sim_output.xml'' then Some (3000, 1)
         else if n = ''4_3000_2_a_sim_output.xml'' then Some (3000, 2)
         else None)\<rparr>"

text \<open>A file with one record whose \<^verbatim>\<open>busStop\<close> is the empty string.\<close>

definition empty_busStop_world :: "f64 world" where
  "empty_busStop_world =
     \<lparr>listdir = [''stop_events_1000_1.xml''],
      path_exists = (\<lambda>p. p = ''stop_events_1000_1.xml''),
      stopinfos = (\<lambda>p.
         if p = ''stop_events_1000_1.xml''
         then Found [stopinfo_el (Some '''') (Some ''A'') (Some ''5'')]
         else Parse_raises),
      to_float = f64_of_string,
      match_mixed = (\<lambda>n. if n = ''stop_events_1000_1.xml'' then Some (1000, 1) else None)\<rparr>"

text \<open>
  A file with three records of stop \<^verbatim>\<open>A\<close>, with \<^verbatim>\<open>delay="3"\<close>, \<^verbatim>\<open>delay="nan"\<close> and
  \<^verbatim>\<open>delay="1"\<close>, read with binary64 floats.
\<close>

definition nan_world :: "f64 world" where
  "nan_world =
     \<lparr>listdir = [''stop_events_1000_1.xml''],
      path_exists = (\<lambda>p. p = ''stop_events_1000_1.xml''),
      stopinfos = (\<lambda>p.
         if p = ''stop_events_1000_1.xml''
         then Found [stopinfo_el (Some ''A'') None (Some ''3''),
                     stopinfo_el (Some ''A'') None (Some ''nan''),
                     stopinfo_el (Some ''A'') None (Some ''1'')]
         else Parse_raises),
      to_float = f64_of_string,
      match_mixed = (\<lambda>n. if n = ''stop_events_1000_1.xml'' then Some (1000, 1) else None)\<rparr>"

lemmas demo_defs =
  demo_world_def demo_f64_world_def demo_dir_def stopinfo_el_def float_of_digits_def digits_value_def parse_stop_delays_def
  parse_root_def sort_all_def stop_id_of_def dict_append_def

section \<open>Statements in sequence\<close>

lemma and_then_Completed:
  "and_then f g = (out, Completed y) \<longleftrightarrow>
     (\<exists>o1 x o2. f = (o1, Completed x) \<and> g x = (o2, Completed y) \<and> out = o1 @ o2)"
  unfolding and_then_def by (auto split: prod.splits outcome.splits)

lemma and_then_simps:
  "and_then (o1, Completed x) g = (o1 @ fst (g x), snd (g x))"
  "and_then (o1, SystemExit m) g = (o1, SystemExit m)"
  "and_then (o1, Uncaught_exception) g = (o1, Uncaught_exception)"
  unfolding and_then_def by (simp_all split: prod.splits)

lemma and_then_no_exit:
  assumes "\<forall>msg. snd f \<noteq> SystemExit msg" and "\<forall>x msg. snd (g x) \<noteq> SystemExit msg"
  shows "snd (and_then f g) \<noteq> SystemExit msg"
proof (cases f)
  case (Pair o1 r)
  show ?thesis
  proof (cases r)
    case (SystemExit m)
    with Pair assms(1) show ?thesis by simp
  next
    case Uncaught_exception
    with Pair show ?thesis by (simp add: and_then_simps)
  next
    case (Completed x)
    with Pair assms(2) show ?thesis by (simp add: and_then_simps)
  qed
qed

lemma run_loop_fold:
  assumes "\<And>x s out s'. x \<in> set xs \<Longrightarrow> body x s = (out, Completed s') \<Longrightarrow> s' = upd x s"
    and "run_loop body xs s = (out, Completed s')"
  shows "s' = fold upd xs s"
  using assms
proof (induction xs arbitrary: s out)
  case Nil
  then show ?case by simp
next
  case (Cons x xs)
  from Cons.prems(2) obtain o1 s1 o2 where
    b: "body x s = (o1, Completed s1)" and r: "run_loop body xs s1 = (o2, Completed s')"
    by (auto simp: and_then_Completed)
  from Cons.prems(1) [OF _ b] have s1: "s1 = upd x s" by simp
  from Cons.IH [OF _ r] Cons.prems(1) have "s' = fold upd xs s1" by simp
  with s1 show ?case by simp
qed

lemma run_loop_total:
  assumes "\<And>x s. x \<in> set xs \<Longrightarrow> \<exists>out. body x s = (out, Completed (upd x s))"
  shows "\<exists>out. run_loop body xs s = (out, Completed (fold upd xs s))"
  using assms
proof (induction xs arbitrary: s)
  case Nil
  then show ?case by simp
next
  case (Cons x xs)
  from Cons.prems [of x s] obtain o1 where b: "body x s = (o1, Completed (upd x s))"
    by auto
  from Cons.IH [of "upd x s"] Cons.prems obtain o2 where
    "run_loop body xs (upd x s) = (o2, Completed (fold upd xs (upd x s)))"
    by auto
  with b show ?case by (simp add: and_then_simps)
qed

lemma run_loop_out:
  assumes "run_loop body xs s = (out, Completed s')" and "x \<in> set xs"
    and "\<And>s. m \<in> set (fst (body x s))"
  shows "m \<in> set out"
  using assms(1,2)
proof (induction xs arbitrary: s out)
  case Nil
  then show ?case by simp
next
  case (Cons y xs)
  from Cons.prems(1) obtain o1 s1 o2 where
    b: "body y s = (o1, Completed s1)" and r: "run_loop body xs s1 = (o2, Completed s')"
    and out: "out = o1 @ o2"
    by (auto simp: and_then_Completed)
  show ?case
  proof (cases "x = y")
    case True
    with assms(3) [of s] b out show ?thesis by simp
  next
    case False
    with Cons.prems(2) Cons.IH [OF r] out show ?thesis by simp
  qed
qed

lemma run_loop_no_exit:
  assumes "\<forall>x s msg. snd (body x s) \<noteq> SystemExit msg"
  shows "snd (run_loop body xs s) \<noteq> SystemExit msg"
proof (induction xs arbitrary: s msg)
  case Nil
  then show ?case by simp
next
  case (Cons x xs)
  have "\<forall>s msg. snd (run_loop body xs s) \<noteq> SystemExit msg"
    using Cons.IH by blast
  with assms show ?case
    by (simp add: and_then_no_exit)
qed

lemma result_or_Completed [simp]: "result_or d (out, Completed x) = x"
  by (simp add: result_or_def)

section \<open>\<^verbatim>\<open>list.sort()\<close> permutes, and sorts where \<open><\<close> is a total order\<close>

lemma mset_take_drop: "mset (take n ys) + mset (drop n ys) = mset ys"
  by (metis append_take_drop_id mset_append)

lemma mset_binary_insert: "mset (binary_insert pivot xs) = add_mset pivot (mset xs)"
  by (simp add: binary_insert_def Let_def mset_take_drop)

lemma mset_binarysort: "mset (binarysort run rest) = mset run + mset rest"
  unfolding binarysort_def
  by (induction rest arbitrary: run) (simp_all add: mset_binary_insert)

lemma mset_list_sort: "mset (list_sort xs) = mset xs"
proof (cases xs rule: list_sort.cases)
  case (3 x0 x1 ys)
  have "mset (binarysort (rev (take n zs)) (drop n zs)) = mset zs"
    and "mset (binarysort (take n zs) (drop n zs)) = mset zs" for n and zs :: "'a list"
    by (simp_all only: mset_binarysort mset_rev mset_take_drop)
  then show ?thesis
    unfolding 3 list_sort.simps Let_def by (cases "x1 < x0") (simp_all only: if_True if_False)
qed simp_all

lemma set_list_sort: "set (list_sort xs) = set xs"
  using mset_list_sort [of xs] by (metis set_mset_mset)

lemma length_list_sort: "length (list_sort xs) = length xs"
  using mset_list_sort [of xs] by (metis size_mset)

lemma list_sort_eq_Nil: "list_sort xs = [] \<longleftrightarrow> xs = []"
  using length_list_sort [of xs] by (metis length_0_conv)

lemma bisect_place:
  fixes key :: "'v::ord \<Rightarrow> 'k::linorder"
  assumes ord: "\<And>a b. a \<in> insert pivot (set xs) \<Longrightarrow> b \<in> insert pivot (set xs) \<Longrightarrow>
      (a < b) = (key a < key b)"
    and srt: "sorted (map key xs)"
  shows "l \<le> r \<Longrightarrow> r \<le> length xs \<Longrightarrow>
     (\<forall>i<l. key (xs ! i) \<le> key pivot) \<Longrightarrow>
     (\<forall>i. r \<le> i \<and> i < length xs \<longrightarrow> key pivot < key (xs ! i)) \<Longrightarrow>
     bisect pivot xs l r \<le> length xs
     \<and> (\<forall>i<bisect pivot xs l r. key (xs ! i) \<le> key pivot)
     \<and> (\<forall>i. bisect pivot xs l r \<le> i \<and> i < length xs \<longrightarrow> key pivot < key (xs ! i))"
  using ord srt
proof (induction pivot xs l r rule: bisect.induct)
  case (1 pivot xs l r)
  show ?case
  proof (cases "l < r")
    case False
    with "1.prems" have "l = r" by simp
    with "1.prems" False show ?thesis
      by (subst (1 2 3) bisect.simps) simp
  next
    case True
    define p where "p = l + (r - l) div 2"
    from True have p: "l \<le> p" "p < r" unfolding p_def by auto
    with "1.prems" have plen: "p < length xs" by simp
    have mono: "i \<le> j \<Longrightarrow> j < length xs \<Longrightarrow> key (xs ! i) \<le> key (xs ! j)" for i j
      using "1.prems"(6) sorted_nth_mono [of "map key xs" i j] by simp
    have mem: "xs ! p \<in> insert pivot (set xs)"
      using plen by simp
    have unfold: "bisect pivot xs l r =
        (if pivot < xs ! p then bisect pivot xs l p else bisect pivot xs (p + 1) r)"
      using True by (subst bisect.simps) (simp add: p_def Let_def)
    show ?thesis
    proof (cases "pivot < xs ! p")
      case lt: True
      then have klt: "key pivot < key (xs ! p)"
        using "1.prems"(5) [of pivot "xs ! p"] mem by simp
      have hi: "\<forall>i. p \<le> i \<and> i < length xs \<longrightarrow> key pivot < key (xs ! i)"
        using klt mono by (meson less_le_trans)
      have "bisect pivot xs l p \<le> length xs
         \<and> (\<forall>i<bisect pivot xs l p. key (xs ! i) \<le> key pivot)
         \<and> (\<forall>i. bisect pivot xs l p \<le> i \<and> i < length xs \<longrightarrow> key pivot < key (xs ! i))"
        using "1.IH"(1) [OF True p_def lt p(1) _ "1.prems"(3) hi "1.prems"(5,6)] plen
        by simp
      with unfold lt show ?thesis by simp
    next
      case ge: False
      then have kge: "key (xs ! p) \<le> key pivot"
        using "1.prems"(5) [of pivot "xs ! p"] mem by simp
      have lo: "\<forall>i<p + 1. key (xs ! i) \<le> key pivot"
        using kge mono plen by (metis Suc_eq_plus1 less_Suc_eq_le order_trans)
      have "bisect pivot xs (p + 1) r \<le> length xs
         \<and> (\<forall>i<bisect pivot xs (p + 1) r. key (xs ! i) \<le> key pivot)
         \<and> (\<forall>i. bisect pivot xs (p + 1) r \<le> i \<and> i < length xs \<longrightarrow> key pivot < key (xs ! i))"
        using "1.IH"(2) [OF True p_def ge _ "1.prems"(2) lo "1.prems"(4,5,6)] p
        by simp
      with unfold ge show ?thesis by simp
    qed
  qed
qed


lemma sorted_take_count_asc:
  fixes key :: "'v::ord \<Rightarrow> 'k::linorder"
  assumes "\<And>a b. a \<in> set (prev # xs) \<Longrightarrow> b \<in> set (prev # xs) \<Longrightarrow> (a < b) = (key a < key b)"
  shows "sorted (map key (take (Suc (count_asc prev xs)) (prev # xs)))"
  using assms
proof (induction xs arbitrary: prev)
  case Nil
  then show ?case by simp
next
  case (Cons x xs)
  show ?case
  proof (cases "x < prev")
    case True
    then show ?thesis by simp
  next
    case False
    then have le: "key prev \<le> key x"
      using Cons.prems [of x prev] by simp
    have "sorted (map key (take (Suc (count_asc x xs)) (x # xs)))"
      by (rule Cons.IH) (simp add: Cons.prems)
    with le False show ?thesis by auto
  qed
qed

lemma sorted_take_count_desc:
  fixes key :: "'v::ord \<Rightarrow> 'k::linorder"
  assumes "\<And>a b. a \<in> set (prev # xs) \<Longrightarrow> b \<in> set (prev # xs) \<Longrightarrow> (a < b) = (key a < key b)"
  shows "sorted_wrt (\<lambda>a b. b \<le> a) (map key (take (Suc (count_desc prev xs)) (prev # xs)))"
  using assms
proof (induction xs arbitrary: prev)
  case Nil
  then show ?case by simp
next
  case (Cons x xs)
  show ?case
  proof (cases "x < prev")
    case False
    then show ?thesis by simp
  next
    case True
    then have le: "key x \<le> key prev"
      using Cons.prems [of x prev] by simp
    have "sorted_wrt (\<lambda>a b. b \<le> a) (map key (take (Suc (count_desc x xs)) (x # xs)))"
      by (rule Cons.IH) (simp add: Cons.prems)
    with le True show ?thesis by auto
  qed
qed

lemma sorted_binary_insert:
  fixes key :: "'v::ord \<Rightarrow> 'k::linorder"
  assumes ord: "\<And>a b. a \<in> insert pivot (set xs) \<Longrightarrow> b \<in> insert pivot (set xs) \<Longrightarrow>
      (a < b) = (key a < key b)"
    and srt: "sorted (map key xs)"
  shows "sorted (map key (binary_insert pivot xs))"
proof -
  define p where "p = bisect pivot xs 0 (length xs)"
  have top: "\<forall>i. length xs \<le> i \<and> i < length xs \<longrightarrow> key pivot < key (xs ! i)"
    by auto
  have b: "p \<le> length xs" "\<forall>i<p. key (xs ! i) \<le> key pivot"
    "\<forall>i. p \<le> i \<and> i < length xs \<longrightarrow> key pivot < key (xs ! i)"
    using bisect_place [of pivot xs key 0 "length xs", OF ord srt _ _ _ top]
    unfolding p_def by simp_all
  have lo: "\<forall>x \<in> set (take p xs). key x \<le> key pivot"
    using b(1,2) by (auto simp: in_set_conv_nth)
  have hi: "\<forall>x \<in> set (drop p xs). key pivot \<le> key x"
    using b(1,3) by (auto simp: in_set_conv_nth less_imp_le)
  have st: "sorted (map key (take p xs))" "sorted (map key (drop p xs))"
    using srt by (simp_all add: take_map [symmetric] drop_map [symmetric] sorted_wrt_take sorted_wrt_drop)
  have cross: "\<forall>x \<in> set (take p xs). \<forall>y \<in> set (drop p xs). key x \<le> key y"
    using lo hi by (meson order_trans)
  show ?thesis
    unfolding binary_insert_def Let_def p_def [symmetric]
    using lo hi st cross by (simp add: sorted_append)
qed

lemma sorted_binarysort:
  fixes key :: "'v::ord \<Rightarrow> 'k::linorder"
  assumes "\<And>a b. a \<in> set run \<union> set rest \<Longrightarrow> b \<in> set run \<union> set rest \<Longrightarrow>
      (a < b) = (key a < key b)"
    and "sorted (map key run)"
  shows "sorted (map key (binarysort run rest))"
  using assms unfolding binarysort_def
proof (induction rest arbitrary: run)
  case Nil
  then show ?case by simp
next
  case (Cons x rest)
  have s: "sorted (map key (binary_insert x run))"
  proof (rule sorted_binary_insert)
    fix a b
    assume "a \<in> insert x (set run)" and "b \<in> insert x (set run)"
    then show "(a < b) = (key a < key b)"
      by (intro Cons.prems(1)) auto
  qed (rule Cons.prems(2))
  have set: "set (binary_insert x run) = insert x (set run)"
    using mset_binary_insert [of x run] by (metis set_mset_mset set_mset_add_mset_insert)
  have "sorted (map key (fold binary_insert rest (binary_insert x run)))"
  proof (rule Cons.IH [OF _ s])
    fix a b
    assume "a \<in> set (binary_insert x run) \<union> set rest"
      and "b \<in> set (binary_insert x run) \<union> set rest"
    then show "(a < b) = (key a < key b)"
      unfolding set by (intro Cons.prems(1)) auto
  qed
  then show ?case by simp
qed

lemma sorted_list_sort:
  fixes key :: "'v::ord \<Rightarrow> 'k::linorder"
  assumes ord: "\<And>a b. a \<in> set xs \<Longrightarrow> b \<in> set xs \<Longrightarrow> (a < b) = (key a < key b)"
  shows "sorted (map key (list_sort xs))"
proof (cases xs rule: list_sort.cases)
  case (3 x0 x1 ys)
  have sub: "set (take n xs) \<union> set (drop n xs) = set xs" for n
    by (metis append_take_drop_id set_append)
  have subr: "set (rev (take n xs)) \<union> set (drop n xs) = set xs" for n
    using sub [of n] by simp
  show ?thesis
  proof (cases "x1 < x0")
    case True
    have "set (x1 # ys) \<subseteq> set xs" using 3 by auto
    then have d: "sorted_wrt (\<lambda>a b. b \<le> a)
        (map key (take (Suc (count_desc x1 ys)) (x1 # ys)))"
      by (intro sorted_take_count_desc ord) auto
    from True have k: "key x1 \<le> key x0"
      using ord [of x1 x0] 3 by simp
    have run: "sorted_wrt (\<lambda>a b. b \<le> a)
        (map key (take (2 + count_desc x1 ys) xs))"
      using d k unfolding 3 by auto
    have "sorted (map key (rev (take (2 + count_desc x1 ys) xs)))"
      using run by (simp add: rev_map [symmetric] sorted_wrt_rev)
    then have "sorted (map key (binarysort (rev (take (2 + count_desc x1 ys) xs))
        (drop (2 + count_desc x1 ys) xs)))"
      by (intro sorted_binarysort) (simp_all only: subr ord)
    with True show ?thesis
      unfolding 3 by (simp only: list_sort.simps Let_def if_True)
  next
    case False
    have "set (x1 # ys) \<subseteq> set xs" using 3 by auto
    then have d: "sorted (map key (take (Suc (count_asc x1 ys)) (x1 # ys)))"
      by (intro sorted_take_count_asc ord) auto
    from False have k: "key x0 \<le> key x1"
      using ord [of x1 x0] 3 by simp
    have run: "sorted (map key (take (2 + count_asc x1 ys) xs))"
      using d k unfolding 3 by auto
    then have "sorted (map key (binarysort (take (2 + count_asc x1 ys) xs)
        (drop (2 + count_asc x1 ys) xs)))"
      by (intro sorted_binarysort) (simp_all only: sub ord)
    with False show ?thesis
      unfolding 3 by (simp only: list_sort.simps Let_def if_False)
  qed
qed simp_all

lemma list_sort_linorder: "list_sort xs = sort (xs :: 'a::linorder list)"
proof -
  have "sorted (map (\<lambda>x. x) (list_sort xs))"
    by (rule sorted_list_sort) simp
  then show ?thesis
    using properties_for_sort [of "list_sort xs" xs] by (simp add: mset_list_sort)
qed

section \<open>The aligner, identity by identity\<close>

lemma filter_align_stop:
  "filter (\<lambda>r. row_stop r = k) (align_stop value sim stop_id base_list mix_list) =
     (if stop_id = k then align_stop value sim stop_id base_list mix_list else [])"
  unfolding align_stop_def by (simp add: filter_map comp_def)

lemma align_rows_absent:
  "map_of base k = None \<Longrightarrow> filter (\<lambda>r. row_stop r = k) (align_rows value sim base mixed) = []"
proof (induction base)
  case Nil
  then show ?case by simp
next
  case (Cons kv base)
  obtain stop_id base_list where kv: "kv = (stop_id, base_list)"
    by (cases kv)
  from Cons.prems kv have ne: "stop_id \<noteq> k" and rest: "map_of base k = None"
    by (auto split: if_splits)
  from Cons.IH [OF rest] ne kv show ?case
    by (simp add: filter_align_stop split: option.splits)
qed

lemma align_stop_Nil: "align_stop value sim stop_id base_list [] = []"
  unfolding align_stop_def by simp

text \<open>
  C1. For every baseline MeasurementSet (a dict, so with distinct keys), every perturbed
  MeasurementSet and every identity \<open>k\<close>: when \<open>k\<close> is in both sets, with lists
  \<open>base_list\<close> and \<open>mix_list\<close>, the rows of \<open>k\<close> are exactly the
  \<open>min (length base_list) (length mix_list)\<close> rows that pair position \<open>i\<close> of one list with
  position \<open>i\<close> of the other under the occurrence rank \<open>i + 1\<close>; when \<open>k\<close> is missing
  from either set, there is no row of \<open>k\<close>.
\<close>

theorem align_rows_per_identity:
  assumes "distinct (map fst base)"
  shows "filter (\<lambda>r. row_stop r = k) (align_rows value sim base mixed) =
     (case (map_of base k, map_of mixed k) of
        (Some base_list, Some mix_list) \<Rightarrow>
          map (\<lambda>i. \<lparr>row_value = value, row_sim = sim, row_stop = k,
                     row_occurrence = int i + 1,
                     delay_baseline_s = base_list ! i,
                     delay_mixed_s = mix_list ! i,
                     delay_delta_s = mix_list ! i - base_list ! i\<rparr>)
              [0..<min (length base_list) (length mix_list)]
      | _ \<Rightarrow> [])"
  using assms
proof (induction base)
  case Nil
  then show ?case by simp
next
  case (Cons kv base)
  obtain stop_id base_list where kv: "kv = (stop_id, base_list)"
    by (cases kv)
  from Cons.prems kv have fresh: "stop_id \<notin> fst ` set base" and dist: "distinct (map fst base)"
    by auto
  show ?case
  proof (cases "stop_id = k")
    case True
    with fresh have "map_of base k = None"
      by (simp add: map_of_eq_None_iff)
    then have rest: "filter (\<lambda>r. row_stop r = k) (align_rows value sim base mixed) = []"
      by (rule align_rows_absent)
    from True kv rest show ?thesis
      by (auto simp: filter_align_stop align_stop_def split: option.splits)
  next
    case False
    with kv Cons.IH [OF dist] show ?thesis
      by (simp add: filter_align_stop split: option.splits)
  qed
qed

theorem align_rows_per_identity_witness:
  "distinct (map fst [(''A'', [10, 20 :: real]), (''C'', [1])])
   \<and> filter (\<lambda>r. row_stop r = ''A'')
        (align_rows 1000 1 [(''A'', [10, 20 :: real]), (''C'', [1])]
           [(''A'', [12, 21, 30]), (''B'', [5])]) =
      [\<lparr>row_value = 1000, row_sim = 1, row_stop = ''A'', row_occurrence = 1,
        delay_baseline_s = 10, delay_mixed_s = 12, delay_delta_s = 2\<rparr>,
       \<lparr>row_value = 1000, row_sim = 1, row_stop = ''A'', row_occurrence = 2,
        delay_baseline_s = 20, delay_mixed_s = 21, delay_delta_s = 1\<rparr>]
   \<and> filter (\<lambda>r. row_stop r = ''B'')
        (align_rows 1000 1 [(''A'', [10, 20 :: real]), (''C'', [1])]
           [(''A'', [12, 21, 30]), (''B'', [5])]) = []
   \<and> filter (\<lambda>r. row_stop r = ''C'')
        (align_rows 1000 1 [(''A'', [10, 20 :: real]), (''C'', [1])]
           [(''A'', [12, 21, 30]), (''B'', [5])]) = []"
proof -
  have d: "distinct (map fst [(''A'', [10, 20 :: real]), (''C'', [1])])"
    by simp
  have two: "[0..<2] = [0, Suc 0]"
    by (simp add: upt_rec)
  show ?thesis
    using d
      align_rows_per_identity [OF d, of "''A''" 1000 1 "[(''A'', [12, 21, 30]), (''B'', [5])]"]
      align_rows_per_identity [OF d, of "''B''" 1000 1 "[(''A'', [12, 21, 30]), (''B'', [5])]"]
      align_rows_per_identity [OF d, of "''C''" 1000 1 "[(''A'', [12, 21, 30]), (''B'', [5])]"]
    by (simp add: two)
qed

section \<open>The order of the floats\<close>

lemma scale_powi:
  assumes "e \<le> e1"
  shows "real_of_int (m * 2 ^ nat (e1 - e)) * 2 powi e = real_of_int m * 2 powi e1"
proof -
  define n where "n = nat (e1 - e)"
  from assms have e1: "e1 = e + int n"
    unfolding n_def by simp
  have "(2 :: real) powi (e + int n) = 2 powi e * 2 powi int n"
    by (rule power_int_add) simp
  also have "\<dots> = 2 powi e * 2 ^ n"
    by (simp only: power_int_of_nat)
  finally show ?thesis
    unfolding n_def [symmetric] e1 by simp
qed

lemma f64_less_finite:
  "f64_less (F64 m1 e1) (F64 m2 e2) \<longleftrightarrow>
     real_of_int m1 * 2 powi e1 < real_of_int m2 * 2 powi e2"
proof -
  define e where "e = min e1 e2"
  have le: "e \<le> e1" "e \<le> e2" unfolding e_def by simp_all
  have pos: "(0 :: real) < 2 powi e" by simp
  have "f64_less (F64 m1 e1) (F64 m2 e2) \<longleftrightarrow>
      m1 * 2 ^ nat (e1 - e) < m2 * 2 ^ nat (e2 - e)"
    by (simp add: Let_def e_def)
  also have "\<dots> \<longleftrightarrow>
      real_of_int (m1 * 2 ^ nat (e1 - e)) * 2 powi e < real_of_int (m2 * 2 ^ nat (e2 - e)) * 2 powi e"
    using pos by (simp only: mult_less_cancel_right_pos of_int_less_iff)
  finally show ?thesis
    by (simp only: scale_powi [OF le(1)] scale_powi [OF le(2)])
qed

lemma f64_less_key:
  "a \<noteq> NaN \<Longrightarrow> b \<noteq> NaN \<Longrightarrow> (a < b) = (f64_key a < f64_key b)"
proof -
  have fin: "(let e = min e1 e2 in m1 * 2 ^ nat (e1 - e) < m2 * 2 ^ nat (e2 - e)) =
      (real_of_int m1 * 2 powi e1 < real_of_int m2 * 2 powi e2)" for m1 e1 m2 e2
    using f64_less_finite [of m1 e1 m2 e2] by simp
  assume "a \<noteq> NaN" and "b \<noteq> NaN"
  then show ?thesis
    unfolding less_f64_def
    by (cases a; cases b) (simp_all add: fin)
qed

lemma ascending_list_sort_f64:
  assumes "NaN \<notin> set xs"
  shows "ascending (list_sort xs)"
proof -
  have "sorted (map f64_key (list_sort xs))"
  proof (rule sorted_list_sort)
    fix a b
    assume "a \<in> set xs" and "b \<in> set xs"
    with assms have "a \<noteq> NaN" and "b \<noteq> NaN" by auto
    then show "(a < b) = (f64_key a < f64_key b)"
      by (rule f64_less_key)
  qed
  then have s: "sorted_wrt (\<lambda>a b. f64_key a \<le> f64_key b) (list_sort xs)"
    by (simp add: sorted_wrt_map)
  have "sorted_wrt (\<lambda>a b. \<not> b < a) (list_sort xs)"
  proof (rule sorted_wrt_mono_rel [OF _ s])
    fix a b
    assume "a \<in> set (list_sort xs)" and "b \<in> set (list_sort xs)"
      and le: "f64_key a \<le> f64_key b"
    with assms have "a \<noteq> NaN" and "b \<noteq> NaN"
      by (auto simp: set_list_sort)
    from f64_less_key [OF this(2,1)] le show "\<not> b < a"
      by simp
  qed
  then show ?thesis
    by (simp add: ascending_def)
qed

section \<open>The extractor's invariant\<close>

lemma nonempty_lists_update:
  "nonempty_lists d \<Longrightarrow> xs \<noteq> [] \<Longrightarrow> nonempty_lists (AList.update k xs d)"
  unfolding nonempty_lists_def
  by (induction d) auto

lemma nonempty_lists_dict_append:
  "nonempty_lists d \<Longrightarrow> nonempty_lists (dict_append k v d)"
  unfolding dict_append_def
  by (rule nonempty_lists_update) simp_all

lemma distinct_dict_append:
  "distinct (map fst d) \<Longrightarrow> distinct (map fst (dict_append k v d))"
  unfolding dict_append_def
  by (rule distinct_update)

lemma stopinfo_loop_nonempty:
  "nonempty_lists d \<Longrightarrow> nonempty_lists (stopinfo_loop flt els d)"
  by (induction els arbitrary: d)
     (auto simp: nonempty_lists_dict_append split: option.splits)

lemma stopinfo_loop_distinct:
  "distinct (map fst d) \<Longrightarrow> distinct (map fst (stopinfo_loop flt els d))"
  by (induction els arbitrary: d)
     (auto simp: distinct_dict_append split: option.splits)

lemma sort_all_keys: "map fst (sort_all d) = map fst d"
  unfolding sort_all_def by (induction d) auto

lemma sort_all_member:
  "(k, xs) \<in> set (sort_all d) \<Longrightarrow> \<exists>ys. (k, ys) \<in> set d \<and> xs = list_sort ys"
  unfolding sort_all_def by auto

lemma sort_all_nonempty: "nonempty_lists d \<Longrightarrow> nonempty_lists (sort_all d)"
  unfolding nonempty_lists_def sort_all_def
  by (auto simp: list_sort_eq_Nil)

lemma parse_stop_delays_cases:
  assumes "parse_stop_delays w path = (out, Completed d)"
  shows "d = [] \<or> (\<exists>els. d = sort_all (stopinfo_loop (to_float w) els []))"
  using assms unfolding parse_stop_delays_def
  by (auto split: parsed.splits)

lemma parse_stop_delays_distinct:
  assumes "parse_stop_delays w path = (out, Completed d)"
  shows "distinct (map fst d)"
  using parse_stop_delays_cases [OF assms]
  by (auto simp: sort_all_keys stopinfo_loop_distinct)

lemma parse_stop_delays_nonempty:
  assumes "parse_stop_delays w path = (out, Completed d)"
  shows "nonempty_lists d"
proof -
  have "nonempty_lists (stopinfo_loop (to_float w) els [])" for els
    by (rule stopinfo_loop_nonempty) (simp add: nonempty_lists_def)
  then show ?thesis
    using parse_stop_delays_cases [OF assms]
    by (auto simp: sort_all_nonempty) (simp add: nonempty_lists_def)
qed

text \<open>
  C10, as the code has it. The MeasurementSet that \<^verbatim>\<open>parse_stop_delays\<close> returns for a
  file, read with binary64 floats, maps each of its identities to a list that is not empty;
  the list is in non-decreasing order when NaN is not among its values.
\<close>

theorem parse_stop_delays_nonempty_sorted:
  fixes w :: "f64 world"
  assumes "parse_stop_delays w path = (out, Completed d)"
  shows "\<forall>(k, xs) \<in> set d. xs \<noteq> [] \<and> (NaN \<notin> set xs \<longrightarrow> ascending xs)"
proof -
  have "xs \<noteq> [] \<and> (NaN \<notin> set xs \<longrightarrow> ascending xs)" if m: "(k, xs) \<in> set d" for k xs
  proof -
    from parse_stop_delays_nonempty [OF assms] m have ne: "xs \<noteq> []"
      by (auto simp: nonempty_lists_def)
    from parse_stop_delays_cases [OF assms] m obtain ys where "xs = list_sort ys"
      by (auto dest: sort_all_member)
    then have "NaN \<notin> set xs \<longrightarrow> ascending xs"
      by (simp add: set_list_sort ascending_list_sort_f64)
    with ne show ?thesis by simp
  qed
  then show ?thesis by auto
qed

lemma demo_f64_file:
  "parse_stop_delays demo_f64_world (Some ''stop_events_1000_1.xml'') =
     ([], Completed [(''A'', [F64 3 2, F64 21 0]), (''B'', [F64 0 0])])"
  by code_simp

theorem parse_stop_delays_nonempty_sorted_witness:
  "parse_stop_delays demo_f64_world (Some ''stop_events_1000_1.xml'') =
     ([], Completed [(''A'', [F64 3 2, F64 21 0]), (''B'', [F64 0 0])])
   \<and> [F64 3 2, F64 21 0] \<noteq> [] \<and> ascending [F64 3 2, F64 21 0]
   \<and> [F64 0 0] \<noteq> [] \<and> ascending [F64 0 0]"
  using parse_stop_delays_nonempty_sorted [OF demo_f64_file]
  by (simp add: demo_f64_file)

text \<open>
  A file with \<^verbatim>\<open>delay="3"\<close>, \<^verbatim>\<open>delay="nan"\<close> and \<^verbatim>\<open>delay="1"\<close> for one stop:
  \<^verbatim>\<open>float("nan")\<close> parses, no comparison with NaN is true, so \<^verbatim>\<open>list.sort()\<close> takes
  the list for one non-descending run and leaves 3.0 before 1.0.
\<close>

theorem nan_delay_counterexample:
  "parse_stop_delays nan_world (Some ''stop_events_1000_1.xml'') =
     ([], Completed [(''A'', [F64 3 0, NaN, F64 1 0])])
   \<and> F64 1 0 < F64 3 0
   \<and> \<not> ascending [F64 3 0, NaN, F64 1 0]"
  by code_simp

section \<open>What the extractor stores for an identity\<close>

lemma map_of_dict_append:
  "map_of (dict_append sid v d) k =
     (if sid = k then Some ((case map_of d k of None \<Rightarrow> [] | Some xs \<Rightarrow> xs) @ [v])
      else map_of d k)"
  by (simp add: dict_append_def update_conv')

lemma stopinfo_loop_lookup:
  assumes zero: "flt ''0'' = Some 0" and k: "k \<noteq> []"
  shows "map_of (stopinfo_loop flt els d) k =
     (if occurrences stop_id_of flt els k = [] then map_of d k
      else Some ((case map_of d k of None \<Rightarrow> [] | Some xs \<Rightarrow> xs)
                 @ occurrences stop_id_of flt els k))"
proof (induction els arbitrary: d)
  case Nil
  then show ?case
    by (simp add: occurrences_def List.map_filter_simps)
next
  case (Cons el els)
  have dl: "flt (case attr_delay el of None \<Rightarrow> ''0'' | Some s \<Rightarrow> s) = delay_of flt el"
    using zero by (simp add: delay_of_def split: option.splits)
  show ?case
  proof (cases "stop_id_of el = Some k")
    case True
    show ?thesis
    proof (cases "delay_of flt el")
      case None
      with True k dl show ?thesis
        by (simp add: Cons.IH occurrences_def List.map_filter_simps)
    next
      case (Some v)
      with True k dl show ?thesis
        by (simp add: Cons.IH occurrences_def List.map_filter_simps map_of_dict_append)
    qed
  next
    case False
    then have occ: "occurrences stop_id_of flt (el # els) k = occurrences stop_id_of flt els k"
      by (simp add: occurrences_def)
    from False show ?thesis
      unfolding occ
      by (auto simp: Cons.IH dl map_of_dict_append split: option.splits)
  qed
qed

lemma stopinfo_loop_empty_key:
  "map_of (stopinfo_loop flt els d) [] = map_of d []"
  by (induction els arbitrary: d) (auto simp: map_of_dict_append split: option.splits)

lemma map_of_sort_all: "map_of (sort_all d) k = map_option list_sort (map_of d k)"
  unfolding sort_all_def by (induction d) auto

text \<open>
  C3, as the code has it. The identity of a record is its \<^verbatim>\<open>busStop\<close> when that
  attribute is present and not empty, and its \<^verbatim>\<open>stop\<close> otherwise; a record whose
  identity is then missing or empty is skipped. The value of a record is its \<^verbatim>\<open>delay\<close>
  as a float, 0 when the attribute is missing; a record whose \<^verbatim>\<open>delay\<close> does not parse
  is skipped. For a file that has a root, read with binary64 floats, the extractor prints
  nothing and maps each identity to its values as \<^verbatim>\<open>list.sort()\<close> leaves them: the same
  values as in the file, as many times, and in non-decreasing order, whatever their order
  in the file, when NaN is not among them.
\<close>

theorem parse_stop_delays_lookup:
  fixes w :: "f64 world"
  assumes "to_float w ''0'' = Some 0" and "stopinfos w p = Found els"
  shows "\<exists>d. parse_stop_delays w (Some p) = ([], Completed d)
       \<and> map_of d k =
           (if k = [] then None else stored_occurrences stop_id_of (to_float w) els k)
       \<and> (\<forall>xs. map_of d k = Some xs \<longrightarrow>
             mset xs = mset (occurrences stop_id_of (to_float w) els k)
             \<and> (NaN \<notin> set xs \<longrightarrow> ascending xs))
       \<and> (\<forall>el. stop_id_of el =
             (if attr_busStop el = None \<or> attr_busStop el = Some [] then attr_stop el
              else attr_busStop el))"
proof -
  define d where "d = sort_all (stopinfo_loop (to_float w) els [])"
  have run: "parse_stop_delays w (Some p) = ([], Completed d)"
    using assms(2) by (simp add: parse_stop_delays_def parse_root_def d_def)
  have id: "stop_id_of el =
      (if attr_busStop el = None \<or> attr_busStop el = Some [] then attr_stop el
       else attr_busStop el)" for el
    by (simp add: stop_id_of_def split: option.splits)
  have look: "map_of d k =
      (if k = [] then None else stored_occurrences stop_id_of (to_float w) els k)"
  proof (cases "k = []")
    case True
    then show ?thesis
      by (simp add: d_def map_of_sort_all stopinfo_loop_empty_key)
  next
    case False
    with stopinfo_loop_lookup
           [where flt = "to_float w" and k = k and els = els and d = "[]", OF assms(1) False]
    show ?thesis
      by (simp add: d_def map_of_sort_all stored_occurrences_def)
  qed
  have props: "mset xs = mset (occurrences stop_id_of (to_float w) els k)
      \<and> (NaN \<notin> set xs \<longrightarrow> ascending xs)" if "map_of d k = Some xs" for xs
  proof -
    from that look have "xs = list_sort (occurrences stop_id_of (to_float w) els k)"
      by (auto simp: stored_occurrences_def split: if_splits)
    then show ?thesis
      by (simp add: mset_list_sort set_list_sort ascending_list_sort_f64)
  qed
  from run look props id show ?thesis
    by blast
qed

lemma demo_f64_float_0: "to_float demo_f64_world ''0'' = Some 0"
  by (simp add: demo_defs f64_of_string_def zero_f64_def f64_norm.simps)

lemma demo_f64_stopinfos:
  "stopinfos demo_f64_world ''stop_events_1000_1.xml'' =
     Found [stopinfo_el (Some ''A'') None (Some ''21''),
            stopinfo_el (Some ''B'') None None,
            stopinfo_el (Some ''A'') None (Some ''12''),
            stopinfo_el (Some ''A'') None (Some ''x'')]"
  by (simp add: demo_f64_world_def demo_dir_def)

lemma demo_f64_occurrences:
  "occurrences stop_id_of (to_float demo_f64_world)
     [stopinfo_el (Some ''A'') None (Some ''21''),
      stopinfo_el (Some ''B'') None None,
      stopinfo_el (Some ''A'') None (Some ''12''),
      stopinfo_el (Some ''A'') None (Some ''x'')] ''A'' = [F64 21 0, F64 3 2]"
  "occurrences stop_id_of (to_float demo_f64_world)
     [stopinfo_el (Some ''A'') None (Some ''21''),
      stopinfo_el (Some ''B'') None None,
      stopinfo_el (Some ''A'') None (Some ''12''),
      stopinfo_el (Some ''A'') None (Some ''x'')] ''B'' = [F64 0 0]"
  by code_simp+

lemma demo_f64_lookups:
  "map_of [(''A'', [F64 3 2, F64 21 0]), (''B'', [F64 0 0])] ''A'' = Some [F64 3 2, F64 21 0]"
  "map_of [(''A'', [F64 3 2, F64 21 0]), (''B'', [F64 0 0])] ''B'' = Some [F64 0 0]"
  by simp_all

theorem parse_stop_delays_lookup_witness:
  "to_float demo_f64_world ''0'' = Some 0
   \<and> stopinfos demo_f64_world ''stop_events_1000_1.xml'' =
       Found [stopinfo_el (Some ''A'') None (Some ''21''),
              stopinfo_el (Some ''B'') None None,
              stopinfo_el (Some ''A'') None (Some ''12''),
              stopinfo_el (Some ''A'') None (Some ''x'')]
   \<and> parse_stop_delays demo_f64_world (Some ''stop_events_1000_1.xml'') =
       ([], Completed [(''A'', [F64 3 2, F64 21 0]), (''B'', [F64 0 0])])
   \<and> stored_occurrences stop_id_of (to_float demo_f64_world)
        [stopinfo_el (Some ''A'') None (Some ''21''),
         stopinfo_el (Some ''B'') None None,
         stopinfo_el (Some ''A'') None (Some ''12''),
         stopinfo_el (Some ''A'') None (Some ''x'')] ''A'' = Some [F64 3 2, F64 21 0]
   \<and> stored_occurrences stop_id_of (to_float demo_f64_world)
        [stopinfo_el (Some ''A'') None (Some ''21''),
         stopinfo_el (Some ''B'') None None,
         stopinfo_el (Some ''A'') None (Some ''12''),
         stopinfo_el (Some ''A'') None (Some ''x'')] ''B'' = Some [F64 0 0]
   \<and> mset [F64 3 2, F64 21 0] = mset [F64 21 0, F64 3 2]
   \<and> ascending [F64 3 2, F64 21 0]"
  using parse_stop_delays_lookup [OF demo_f64_float_0 demo_f64_stopinfos, of "''A''"]
        parse_stop_delays_lookup [OF demo_f64_float_0 demo_f64_stopinfos, of "''B''"]
  by (simp add: demo_f64_float_0 demo_f64_stopinfos demo_f64_file demo_f64_occurrences
        demo_f64_lookups)

text \<open>
  A record with \<^verbatim>\<open>busStop=""\<close>, \<^verbatim>\<open>stop="A"\<close> and \<^verbatim>\<open>delay="5"\<close>: the attribute
  \<^verbatim>\<open>busStop\<close> is not absent, yet the extractor files the record under \<^verbatim>\<open>A\<close>, where
  the identity read from \<^verbatim>\<open>busStop\<close> has no occurrence.
\<close>

theorem empty_busStop_counterexample:
  "stopinfos empty_busStop_world ''stop_events_1000_1.xml'' =
     Found [stopinfo_el (Some '''') (Some ''A'') (Some ''5'')]
   \<and> spec_identity (stopinfo_el (Some '''') (Some ''A'') (Some ''5'')) = Some ''''
   \<and> parse_stop_delays empty_busStop_world (Some ''stop_events_1000_1.xml'') =
       ([], Completed [(''A'', [F64 5 0])])
   \<and> stored_occurrences spec_identity (to_float empty_busStop_world)
        [stopinfo_el (Some '''') (Some ''A'') (Some ''5'')] ''A'' = None"
  by code_simp

section \<open>The order of the summary statistics\<close>














end
